theory Spec2Isabelle
  imports Main "HOL-Library.AList" "HOL-Library.Multiset"
begin

section \<open>Promises\<close>

text \<open>
  A bluebird promise is observed through the way it settles: it is fulfilled with a
  value, rejected with an error, or it stays pending for ever.
\<close>

datatype ('e, 'a) promise = Fulfilled 'a | Rejected 'e | Pending

section \<open>The Steam lookup stub\<close>

record ISteamEntry =
  appid :: string
  entry_name :: string
  entry_gamePath :: string
  lastUser :: string
  lastUpdated :: nat

record ISteamExec =
  steamPath :: string
  arguments :: "string list"

text \<open>
  The two error classes. Each object carries the message handed to \<open>Error\<close>, the
  \<open>name\<close> set from the constructor, and its private fields.
\<close>

record GamePathNotMatched =
  gpnm_message :: string
  gpnm_name :: string
  mGamePath :: string
  mEntryPaths :: "string list"

definition new_GamePathNotMatched :: "string \<Rightarrow> string list \<Rightarrow> GamePathNotMatched" where
  "new_GamePathNotMatched gamePath entries =
     \<lparr> gpnm_message = ''Unable to find matching steam path - ''
          @ ''Please include your latest Vortex log file when reporting this issue!'',
       gpnm_name = ''GamePathNotMatched'',
       mGamePath = gamePath,
       mEntryPaths = entries \<rparr>"

definition gamePath :: "GamePathNotMatched \<Rightarrow> string" where
  "gamePath e = mGamePath e"

definition steamEntryPaths :: "GamePathNotMatched \<Rightarrow> string list" where
  "steamEntryPaths e = mEntryPaths e"

record GameNotFound =
  gnf_message :: string
  gnf_name :: string
  mSearch :: string

definition new_GameNotFound :: "string \<Rightarrow> GameNotFound" where
  "new_GameNotFound search =
     \<lparr> gnf_message = ''Not in Steam library'',
       gnf_name = ''GameNotFound'',
       mSearch = search \<rparr>"

definition search :: "GameNotFound \<Rightarrow> string" where
  "search e = mSearch e"

datatype steam_error =
    ErrGamePathNotMatched GamePathNotMatched
  | ErrGameNotFound GameNotFound

text \<open>\<open>findByAppId\<close> takes a string or a list of strings.\<close>

datatype appid_arg = AppIdOne string | AppIdMany "string list"

definition findByName :: "string \<Rightarrow> (steam_error, ISteamEntry) promise" where
  "findByName namePattern = Rejected (ErrGameNotFound (new_GameNotFound namePattern))"

definition findByAppId :: "appid_arg \<Rightarrow> (steam_error, ISteamEntry) promise" where
  "findByAppId appId = Rejected (ErrGameNotFound (new_GameNotFound ''''))"

definition allGames :: "(steam_error, ISteamEntry list) promise" where
  "allGames = Fulfilled []"

definition getGameExecutionInfo ::
  "string \<Rightarrow> int option \<Rightarrow> string list option \<Rightarrow> (steam_error, ISteamExec) promise" where
  "getGameExecutionInfo gPath appId args =
     Rejected (ErrGameNotFound (new_GameNotFound gPath))"

text \<open>What the interface description calls a "not found" failure.\<close>

fun is_not_found :: "(steam_error, 'a) promise \<Rightarrow> bool" where
  "is_not_found (Rejected (ErrGameNotFound e)) = True"
| "is_not_found _ = False"

section \<open>The memoization helper \<open>lazy\<close>\<close>

text \<open>
  \<open>lazy(func)\<close> returns a closure over the variable \<open>value\<close>, which starts
  \<open>undefined\<close>. The thunk may read and change the world \<open>'s\<close> around it, and its
  result type contains \<open>undefined\<close>, written \<open>None\<close>. The cell records, besides the
  variable, how often the closure has called the thunk.
\<close>

record 'a lazy_cell =
  lazy_value :: "'a option"
  invocations :: nat

definition lazy :: "'a lazy_cell" where
  "lazy = \<lparr> lazy_value = None, invocations = 0 \<rparr>"

definition lazy_call ::
  "('s \<Rightarrow> 'a option \<times> 's) \<Rightarrow> 'a lazy_cell \<times> 's \<Rightarrow> 'a option \<times> 'a lazy_cell \<times> 's" where
  "lazy_call func cs =
     (case cs of (c, s) \<Rightarrow>
        if lazy_value c = None
        then (case func s of (v, s') \<Rightarrow>
                (v, \<lparr> lazy_value = v, invocations = Suc (invocations c) \<rparr>, s'))
        else (lazy_value c, c, s))"

text \<open>\<open>n\<close> calls of the closure in a row, with the results in call order.\<close>

fun lazy_calls ::
  "('s \<Rightarrow> 'a option \<times> 's) \<Rightarrow> nat \<Rightarrow> 'a lazy_cell \<times> 's \<Rightarrow> 'a option list \<times> 'a lazy_cell \<times> 's" where
  "lazy_calls func 0 cs = ([], cs)"
| "lazy_calls func (Suc n) cs =
     (case lazy_call func cs of (v, cs') \<Rightarrow>
        (case lazy_calls func n cs' of (vs, cs'') \<Rightarrow> (v # vs, cs'')))"

section \<open>The state backup writer\<close>

subsection \<open>Values, paths and file names\<close>

text \<open>
  The values that are written and read back. \<open>JUndefined\<close> is there because the
  argument \<open>data\<close> has type \<open>any\<close>. Numbers are only carried, never computed with.
  An object lists its own properties in insertion order.
\<close>

datatype jsvalue =
    JUndefined
  | JNull
  | JBool bool
  | JNum int
  | JStr string
  | JArr "jsvalue list"
  | JObj "(string \<times> jsvalue) list"

definition digit_char :: "nat \<Rightarrow> char" where
  "digit_char d = ''0123456789'' ! d"

fun show_nat :: "nat \<Rightarrow> string" where
  "show_nat n = (if n < 10 then [digit_char n] else show_nat (n div 10) @ [digit_char (n mod 10)])"

declare show_nat.simps [simp del]

text \<open>
  The own enumerable properties that object spread copies: those of an object, the
  indexed elements of an array, the indexed characters of a string, and none for the
  other values.
\<close>

fun own_props :: "jsvalue \<Rightarrow> (string \<times> jsvalue) list" where
  "own_props (JObj kvs) = kvs"
| "own_props (JArr xs) = zip (map show_nat [0 ..< length xs]) xs"
| "own_props (JStr cs) = zip (map show_nat [0 ..< length cs]) (map (\<lambda>c. JStr [c]) cs)"
| "own_props _ = []"

text \<open>
  \<open>{ ...obj, ...src }\<close> continued from the properties copied so far: a key that is
  there keeps its place and takes the new value, a new key goes to the end.
\<close>

definition spread :: "(string \<times> jsvalue) list \<Rightarrow> jsvalue \<Rightarrow> (string \<times> jsvalue) list" where
  "spread obj src = fold (\<lambda>kv acc. AList.update (fst kv) (snd kv) acc) (own_props src) obj"

text \<open>
  A path is the list of its components, and \<open>path.join\<close> of a path and a name adds
  the name as one component: the names joined here are \<open>state_backups\<close>, the result of
  \<open>makeName\<close>, and the file names handed to \<open>deleteBackups\<close>, taken to be plain file
  names.
\<close>

type_synonym path = "string list"

definition path_join :: "path \<Rightarrow> string \<Rightarrow> path" where
  "path_join p n = p @ [n]"

text \<open>
  \<open>makeName\<close> gets the result of a lookup in \<open>backups\<close>, a time in milliseconds or
  \<open>undefined\<close>, and puts its text into the template.
\<close>

fun makeName :: "nat option \<Rightarrow> string" where
  "makeName (Some time) = ''backup_'' @ show_nat time @ ''.json''"
| "makeName None = ''backup_undefined.json''"


subsection \<open>The world around the module\<close>

datatype io_op = ReadFile | WriteFile | EnsureDir | ReadDir | Remove

datatype io_error = IOError io_op path | SyntaxError string

text \<open>
  What the environment answers during one call: the temporary directory of
  \<open>app.getPath\<close>, the id \<open>shortid\<close> generates, the time \<open>Date.now\<close> reads, which
  file operations fail for a reason of the system's own (permissions, a full disk),
  and the two functions of \<open>JSON\<close>; \<open>parse\<close> gives \<open>None\<close> where \<open>JSON.parse\<close>
  throws.
\<close>

record env =
  temp :: path
  shortid :: string
  now :: nat
  io_fails :: "io_op \<Rightarrow> path \<Rightarrow> bool"
  parse :: "string \<Rightarrow> jsvalue option"
  stringify :: "jsvalue \<Rightarrow> string"

text \<open>
  The module's variables (\<open>backups\<close> and the variable inside \<open>backupPath\<close>), the files
  and directories on disk, the log, and the file operations attempted so far.
  \<open>backups\<close> is read as the dictionary of the ids registered in it: the properties
  that a plain object inherits from \<open>Object.prototype\<close> are left out.
\<close>

record world =
  backups :: "string \<rightharpoonup> nat"
  backupPath_cell :: "path lazy_cell"
  files :: "(path \<times> string) list"
  dirs :: "path list"
  logged :: "(string \<times> string \<times> io_error) list"
  io_trace :: "(io_op \<times> path) list"

definition initial_world :: world where
  "initial_world =
     \<lparr> backups = Map.empty, backupPath_cell = lazy, files = [], dirs = [],
       logged = [], io_trace = [] \<rparr>"

definition attempt :: "io_op \<Rightarrow> path \<Rightarrow> world \<Rightarrow> world" where
  "attempt op p w = w\<lparr> io_trace := io_trace w @ [(op, p)] \<rparr>"

text \<open>
  The wrapper \<open>./fs\<close> is not among the sources. The spec calls the backup module a
  thin wrapper over file read/write calls, which reads and writes files in a directory,
  creates the directory idempotently and tolerates missing files when deleting. Each
  operation below either fails, leaving the disk as it is, or has the effect of the
  file-system call it is named after; the synchronous and the asynchronous variants
  differ only in how the result is delivered.
\<close>

text \<open>
  Modelled from the spec: \<open>fs.readFileSync\<close>, missing from the sources, reads a file
  and fails when there is none.
\<close>

definition readFile :: "env \<Rightarrow> path \<Rightarrow> world \<Rightarrow> (io_error + string) \<times> world" where
  "readFile e p w =
     (if io_fails e ReadFile p then (Inl (IOError ReadFile p), attempt ReadFile p w)
      else case map_of (files w) p of
             None \<Rightarrow> (Inl (IOError ReadFile p), attempt ReadFile p w)
           | Some c \<Rightarrow> (Inr c, attempt ReadFile p w))"

text \<open>
  Modelled from the spec: \<open>fs.ensureDirSync\<close> and \<open>fs.ensureDirAsync\<close>, missing from
  the sources, create the directory unless it is there.
\<close>

definition ensureDir :: "env \<Rightarrow> path \<Rightarrow> world \<Rightarrow> (io_error + unit) \<times> world" where
  "ensureDir e p w =
     (if io_fails e EnsureDir p then (Inl (IOError EnsureDir p), attempt EnsureDir p w)
      else (Inr (), attempt EnsureDir p (w\<lparr> dirs := List.insert p (dirs w) \<rparr>)))"

text \<open>
  Modelled from the spec: \<open>fs.writeFileSync\<close> and \<open>fs.writeFileAsync\<close>, missing from
  the sources, write a file into a directory that exists, over the file of that name.
\<close>

definition writeFile :: "env \<Rightarrow> path \<Rightarrow> string \<Rightarrow> world \<Rightarrow> (io_error + unit) \<times> world" where
  "writeFile e p c w =
     (if io_fails e WriteFile p \<or> butlast p \<notin> set (dirs w)
      then (Inl (IOError WriteFile p), attempt WriteFile p w)
      else (Inr (), attempt WriteFile p (w\<lparr> files := AList.update p c (files w) \<rparr>)))"


text \<open>
  Modelled from the spec: \<open>fs.removeAsync\<close>, missing from the sources, removes a file
  and tolerates that there is none.
\<close>

definition remove :: "env \<Rightarrow> path \<Rightarrow> world \<Rightarrow> (io_error + unit) \<times> world" where
  "remove e p w =
     (if io_fails e Remove p then (Inl (IOError Remove p), attempt Remove p w)
      else (Inr (), attempt Remove p (w\<lparr> files := AList.delete p (files w) \<rparr>)))"

text \<open>
  Modelled from the spec: \<open>log\<close> of \<open>./log\<close>, missing from the sources, records the
  level, the message and the error; the spec has the failure of a read "logged".
\<close>

definition log_warn :: "string \<Rightarrow> io_error \<Rightarrow> world \<Rightarrow> world" where
  "log_warn msg err w = w\<lparr> logged := logged w @ [(''warn'', msg, err)] \<rparr>"

subsection \<open>The operations\<close>

text \<open>
  \<open>backupPath = lazy(() => path.join(app.getPath('temp'), 'state_backups'))\<close>. The
  thunk always returns a path, so the closure never returns \<open>undefined\<close>.
\<close>

definition backupPath :: "env \<Rightarrow> world \<Rightarrow> path \<times> world" where
  "backupPath e w =
     (case lazy_call (\<lambda>u::unit. (Some (path_join (temp e) ''state_backups''), u))
             (backupPath_cell w, ()) of
        (v, c, u) \<Rightarrow>
          ((case v of Some p \<Rightarrow> p | None \<Rightarrow> []), w\<lparr> backupPath_cell := c \<rparr>))"

text \<open>
  The first part of \<open>createStateBackupSync\<close>: the id to write under and the existing
  data. The argument is \<open>None\<close> for \<open>undefined\<close>.
\<close>

definition existing_backup :: "env \<Rightarrow> string option \<Rightarrow> world \<Rightarrow> (string \<times> jsvalue) \<times> world" where
  "existing_backup e backupId w =
     (case (case backupId of None \<Rightarrow> None
            | Some b \<Rightarrow> (case backups w b of None \<Rightarrow> None | Some t \<Rightarrow> Some b)) of
        None \<Rightarrow>
          ((shortid e, JObj []), w\<lparr> backups := (backups w)(shortid e \<mapsto> now e) \<rparr>)
      | Some b \<Rightarrow>
          (case backupPath e w of (bp, w1) \<Rightarrow>
             (case readFile e (path_join bp (makeName (backups w1 b))) w1 of
                (Inl err, w2) \<Rightarrow>
                  ((b, JObj []), log_warn ''failed to read existing backup data'' err w2)
              | (Inr oldData, w2) \<Rightarrow>
                  (case parse e oldData of
                     None \<Rightarrow>
                       ((b, JObj []),
                        log_warn ''failed to read existing backup data'' (SyntaxError oldData) w2)
                   | Some existingData \<Rightarrow> ((b, existingData), w2)))))"

definition createStateBackupSync ::
  "env \<Rightarrow> string option \<Rightarrow> jsvalue \<Rightarrow> world \<Rightarrow> (io_error + string) \<times> world" where
  "createStateBackupSync e backupId data w =
     (case existing_backup e backupId w of
        ((b, existingData), w1) \<Rightarrow>
          (let backupData = JObj (spread (spread [] existingData) data) in
           case backupPath e w1 of (bp, w2) \<Rightarrow>
           case ensureDir e bp w2 of
             (Inl err, w3) \<Rightarrow> (Inl err, w3)
           | (Inr u, w3) \<Rightarrow>
               (case backupPath e w3 of (bp', w4) \<Rightarrow>
                case writeFile e (path_join bp' (makeName (backups w4 b)))
                       (stringify e backupData) w4 of
                  (Inl err, w5) \<Rightarrow> (Inl err, w5)
                | (Inr u', w5) \<Rightarrow> (Inr b, w5))))"



text \<open>
  The mapper of \<open>deleteBackups\<close> for one name: the removal with its \<open>catch\<close>, which
  turns a failure into the value \<open>undefined\<close>. The removals are taken one after the
  other in the order of the list.
\<close>

definition delete_one :: "env \<Rightarrow> string \<Rightarrow> world \<Rightarrow> world" where
  "delete_one e backupName w =
     (case backupPath e w of (bp, w1) \<Rightarrow>
      case remove e (path_join bp backupName) w1 of
        (Inl err, w2) \<Rightarrow> w2
      | (Inr u, w2) \<Rightarrow> w2)"

definition deleteBackups :: "env \<Rightarrow> string list \<Rightarrow> world \<Rightarrow> (io_error, unit) promise \<times> world" where
  "deleteBackups e names w = (Fulfilled (), fold (delete_one e) names w)"

subsection \<open>A concrete environment and world\<close>

text \<open>
  An environment in which removing the file \<open>locked\<close> fails and every other operation
  is let through, with \<open>JSON\<close> given on the few texts and values used below, and a
  world that holds one registered backup.
\<close>

definition example_env :: env where
  "example_env =
     \<lparr> temp = [''tmp''], shortid = ''id2'', now = 57,
       io_fails = (\<lambda>op p. op = Remove \<and> p = [''tmp'', ''state_backups'', ''locked'']),
       parse = (\<lambda>s. if s = ''{a:1,b:2}'' then Some (JObj [(''a'', JNum 1), (''b'', JNum 2)])
                     else None),
       stringify = (\<lambda>j. if j = JObj [(''a'', JNum 1), (''b'', JNum 3), (''c'', JNum 4)]
                         then ''{a:1,b:3,c:4}''
                         else if j = JObj [(''b'', JNum 3), (''c'', JNum 4)] then ''{b:3,c:4}''
                         else ''?'') \<rparr>"

definition example_world :: "string \<Rightarrow> world" where
  "example_world content =
     \<lparr> backups = [''id1'' \<mapsto> 42], backupPath_cell = lazy,
       files = [([''tmp'', ''state_backups'', ''backup_42.json''], content),
                ([''tmp'', ''state_backups'', ''locked''], ''x'')],
       dirs = [[''tmp'', ''state_backups'']], logged = [], io_trace = [] \<rparr>"

section \<open>The table component \<open>SuperTable\<close>\<close>

subsection \<open>Rows, attributes and props\<close>

text \<open>
  The value of a cell is of type \<open>any\<close>: \<open>undefined\<close>, a string (the \<open>__id\<close> of a
  row is one), or some other value. Equality of cells stands for \<open>_.isEqual\<close>, and,
  in \<open>standardSort\<close>, for \<open>===\<close> on primitive values.
\<close>

datatype 'v cell = Undefined | Str string | Val 'v

text \<open>
  A row's source data is an object: what \<open>===\<close> compares is the reference, what
  \<open>calc\<close> reads is the content. The code takes row data that is \<open>undefined\<close> as
  broken input, so every row id listed in \<open>data\<close> has an object here. A lookup that
  finds no row gives \<open>undefined\<close>, written \<open>None\<close>.
\<close>

datatype 'd obj = Obj (ref: nat) (content: 'd)

fun strict_eq :: "'d obj option \<Rightarrow> 'd obj option \<Rightarrow> bool" where
  "strict_eq None None = True"
| "strict_eq (Some a) (Some b) = (ref a = ref b)"
| "strict_eq _ _ = False"

datatype SortDirection = SortNone | Asc | Desc

record IAttributeState =
  enabled :: bool
  sortDirection :: "SortDirection option"

text \<open>
  The part of \<open>ITableAttribute\<close> that the functions below read. \<open>calc\<close> gives the
  value its promise resolves to, or the error it rejects with. The sort functions
  return a number and may be absent; \<open>sortFuncRaw\<close> gets the raw data of two rows,
  which is \<open>undefined\<close> for a row that \<open>data\<close> does not have.
\<close>

record ('d, 't, 'v) ITableAttribute =
  attr_id :: string
  isVolatile :: bool
  calc :: "'d \<Rightarrow> 't \<Rightarrow> string + 'v cell"
  sortFunc :: "('v cell \<Rightarrow> 'v cell \<Rightarrow> string \<Rightarrow> int) option"
  sortFuncRaw :: "('d option \<Rightarrow> 'd option \<Rightarrow> string \<Rightarrow> int) option"

text \<open>
  The part of the props that the functions below read. Two props objects are the same
  object when they have the same \<open>props_ref\<close>. \<open>props_data\<close> lists the rows in the
  order of \<open>Object.keys\<close>, each row id once.
\<close>

record ('d, 't, 'v) IProps =
  props_ref :: nat
  props_t :: 't
  props_data :: "(string \<times> 'd obj) list"
  objects :: "('d, 't, 'v) ITableAttribute list"
  attributeState :: "(string \<times> IAttributeState) list"
  language :: string

text \<open>
  An object in the cache lists its keys in insertion order. Equality of two caches
  stands for \<open>_.isEqual\<close>; here it is only ever asked of a cache and itself or of
  caches with different contents.
\<close>

type_synonym 'v ILookupCalculated = "(string \<times> (string \<times> 'v cell) list) list"

record IRowState =
  selected :: bool
  highlighted :: bool

text \<open>
  The component state: the cache of calculated values (\<open>undefined\<close> at first), the row
  state, and the fields that the functions below only pass on.
\<close>

record ('v, 'o) IComponentState =
  calculatedValues :: "'v ILookupCalculated option"
  rowState :: "(string \<times> IRowState) list"
  others :: 'o

text \<open>
  The fields of the component that \<open>updateCalculatedValues\<close> touches. \<open>in_flight\<close>
  holds the arguments of the call whose promise chain is running, and \<open>started\<close> lists
  the recomputations started so far; neither is a variable of the code.
\<close>

record ('d, 't, 'v, 'o) SuperTable =
  this_state :: "('v, 'o) IComponentState"
  mNextState :: "('v, 'o) IComponentState"
  mLastUpdateState :: "('d, 't, 'v) IProps option"
  mNextUpdateState :: "('d, 't, 'v) IProps option"
  mUpdateInProgress :: bool
  mMounted :: bool
  mLastDetailIds :: "string list"
  mDetailTimer :: "string list option"
  in_flight :: "(('d, 't, 'v) IProps \<times> string option) option"
  started :: "(('d, 't, 'v) IProps \<times> string option) list"

subsection \<open>Recomputing the calculated values\<close>

text \<open>
  The variables of one run of the promise chain: \<open>newValues\<close>; whether \<open>newValues\<close>
  is still the very object held in \<open>this.state.calculatedValues\<close>, so that an
  assignment to it changes the state in place; what that object of the state holds;
  \<open>changedColumns\<close>; and the list of the calls of \<open>calc\<close> made, as pairs of row id
  and attribute id.
\<close>

record 'v progress =
  newValues :: "'v ILookupCalculated"
  aliased :: bool
  state_values :: "'v ILookupCalculated"
  changedColumns :: "string list"
  calc_calls :: "(string \<times> string) list"

text \<open>An assignment into the object \<open>newValues\<close>, which the state sees while aliased.\<close>

definition assign_in_place :: "'v ILookupCalculated \<Rightarrow> 'v progress \<Rightarrow> 'v progress" where
  "assign_in_place vals pr =
     pr\<lparr> newValues := vals, state_values := (if aliased pr then vals else state_values pr) \<rparr>"

text \<open>
  Modelled from the spec: \<open>getSafe\<close> of util/storeHelper is not among the sources. The
  spec calls the check around it a memoization check on the cached value of a cell;
  \<open>getSafe(newValues, [rowId, attribute.id], undefined)\<close> is taken as the value at that
  path, and \<open>undefined\<close> where the row or the attribute is missing.
\<close>

definition getSafe :: "'v ILookupCalculated \<Rightarrow> string \<Rightarrow> string \<Rightarrow> 'v cell" where
  "getSafe values rowId attributeId =
     (case map_of values rowId of
        None \<Rightarrow> Undefined
      | Some row \<Rightarrow> (case map_of row attributeId of None \<Rightarrow> Undefined | Some v \<Rightarrow> v))"

definition add_column :: "string \<Rightarrow> string list \<Rightarrow> string list" where
  "add_column c cs = (if c \<in> set cs then cs else cs @ [c])"

text \<open>
  The inner \<open>Promise.map\<close> over the attributes, for one row. The promises are taken
  one after the other in the order of the lists, and the first rejection ends the run.
  \<open>unchanged\<close> is the outcome of \<open>oldState.data[rowId] === data[rowId]\<close>.
\<close>

fun calc_attributes ::
  "('d, 't, 'v) ITableAttribute list \<Rightarrow> string option \<Rightarrow> bool \<Rightarrow> string \<Rightarrow> 'd \<Rightarrow> 't
   \<Rightarrow> (string \<times> 'v cell) list \<times> 'v progress
   \<Rightarrow> (string \<times> 'v progress) + ((string \<times> 'v cell) list \<times> 'v progress)" where
  "calc_attributes [] forceUpdateId unchanged rowId d tr (delta, pr) = Inr (delta, pr)"
| "calc_attributes (attribute # rest) forceUpdateId unchanged rowId d tr (delta, pr) =
     (if \<not> isVolatile attribute \<and> Some (attr_id attribute) \<noteq> forceUpdateId \<and> unchanged
      then calc_attributes rest forceUpdateId unchanged rowId d tr (delta, pr)
      else
        (let pr1 = pr\<lparr> calc_calls := calc_calls pr @ [(rowId, attr_id attribute)] \<rparr> in
         case calc attribute d tr of
           Inl err \<Rightarrow> Inl (err, pr1)
         | Inr newValue \<Rightarrow>
             if newValue \<noteq> getSafe (newValues pr) rowId (attr_id attribute)
             then calc_attributes rest forceUpdateId unchanged rowId d tr
                    (AList.update (attr_id attribute) newValue delta,
                     pr1\<lparr> changedColumns := add_column (attr_id attribute) (changedColumns pr) \<rparr>)
             else calc_attributes rest forceUpdateId unchanged rowId d tr (delta, pr1)))"

text \<open>
  What follows the inner \<open>Promise.map\<close>: a row without a cache entry gets \<open>delta\<close> as
  its entry by assignment, which keeps \<open>newValues\<close> the same object; otherwise
  \<open>update\<close> with \<open>$merge\<close> makes a new object.
\<close>

definition merge_object :: "(string \<times> 'a) list \<Rightarrow> (string \<times> 'a) list \<Rightarrow> (string \<times> 'a) list" where
  "merge_object obj src = fold (\<lambda>kv acc. AList.update (fst kv) (snd kv) acc) src obj"

definition apply_delta :: "string \<Rightarrow> (string \<times> 'v cell) list \<Rightarrow> 'v progress \<Rightarrow> 'v progress" where
  "apply_delta rowId delta pr =
     (if delta = [] then pr
      else (let delta1 = AList.update ''__id'' (Str rowId) delta in
            case map_of (newValues pr) rowId of
              None \<Rightarrow> assign_in_place (AList.update rowId delta1 (newValues pr)) pr
            | Some row \<Rightarrow>
                pr\<lparr> newValues := AList.update rowId (merge_object row delta1) (newValues pr),
                    aliased := False \<rparr>))"

fun calc_rows ::
  "(string \<times> 'd obj) list \<Rightarrow> ('d, 't, 'v) ITableAttribute list \<Rightarrow> string option
   \<Rightarrow> (string \<times> 'd obj) list \<Rightarrow> 't \<Rightarrow> 'v progress
   \<Rightarrow> (string \<times> 'v progress) + 'v progress" where
  "calc_rows [] attributes forceUpdateId oldData tr pr = Inr pr"
| "calc_rows ((rowId, row) # rest) attributes forceUpdateId oldData tr pr =
     (case calc_attributes attributes forceUpdateId
             (strict_eq (map_of oldData rowId) (Some row)) rowId (content row) tr
             ([], pr) of
        Inl failure \<Rightarrow> Inl failure
      | Inr (delta, pr1) \<Rightarrow>
          calc_rows rest attributes forceUpdateId oldData tr (apply_delta rowId delta pr1))"

text \<open>The rows of the previous update that are gone are deleted from \<open>newValues\<close>.\<close>

definition delete_gone ::
  "(string \<times> 'd obj) list \<Rightarrow> (string \<times> 'd obj) list \<Rightarrow> 'v progress \<Rightarrow> 'v progress" where
  "delete_gone oldData newData pr =
     assign_in_place
       (fold (\<lambda>rowId values. if map_of newData rowId = None then AList.delete rowId values
                              else values)
          (map fst oldData) (newValues pr))
       pr"

definition recalculate ::
  "('d, 't, 'v) IProps \<Rightarrow> string option \<Rightarrow> ('d, 't, 'v) IProps option
   \<Rightarrow> 'v ILookupCalculated option \<Rightarrow> (string \<times> 'v progress) + 'v progress" where
  "recalculate props forceUpdateId lastUpdateState cached =
     (let oldData = (case lastUpdateState of None \<Rightarrow> [] | Some old \<Rightarrow> props_data old);
          start = \<lparr> newValues = (case cached of None \<Rightarrow> [] | Some values \<Rightarrow> values),
                    aliased = (cached \<noteq> None),
                    state_values = (case cached of None \<Rightarrow> [] | Some values \<Rightarrow> values),
                    changedColumns = [], calc_calls = [] \<rparr>
      in case calc_rows (props_data props) (objects props) forceUpdateId oldData
                (props_t props) start of
           Inl failure \<Rightarrow> Inl failure
         | Inr pr \<Rightarrow> Inr (delete_gone oldData (props_data props) pr))"

text \<open>
  The assignments made to \<open>newValues\<close> while it was the state's own object have
  changed the state in place, and with it \<open>mNextState\<close>, which holds the same object:
  every \<open>updateState\<close> passes the object on, and a recomputation that could not set
  the state never ends. A state without calculated values has no such object.
\<close>

definition mutated_in_place ::
  "'v progress \<Rightarrow> ('d, 't, 'v, 'o) SuperTable \<Rightarrow> ('d, 't, 'v, 'o) SuperTable" where
  "mutated_in_place pr tb =
     (case calculatedValues (this_state tb) of
        None \<Rightarrow> tb
      | Some original \<Rightarrow>
          tb\<lparr> this_state := (this_state tb)\<lparr> calculatedValues := Some (state_values pr) \<rparr>,
              mNextState := (mNextState tb)\<lparr> calculatedValues := Some (state_values pr) \<rparr> \<rparr>)"

text \<open>
  \<open>updateState\<close> with a callback, and whether the callback is called: it is not when
  the new state differs and the component is not mounted. \<open>setState\<close> is taken to
  put the new state in place and call back in one step.
\<close>

definition updateState ::
  "('v, 'o) IComponentState \<Rightarrow> ('d, 't, 'v, 'o) SuperTable
   \<Rightarrow> bool \<times> ('d, 't, 'v, 'o) SuperTable" where
  "updateState newState tb =
     (if newState = this_state tb then (True, tb)
      else if mMounted tb
      then (True, tb\<lparr> mNextState := newState, this_state := newState \<rparr>)
      else (False, tb\<lparr> mNextState := newState \<rparr>))"

definition updateDetailIds ::
  "string list \<Rightarrow> ('d, 't, 'v, 'o) SuperTable \<Rightarrow> ('d, 't, 'v, 'o) SuperTable" where
  "updateDetailIds rowIds tb =
     (if mLastDetailIds tb = rowIds then tb
      else tb\<lparr> mLastDetailIds := rowIds, mDetailTimer := Some rowIds \<rparr>)"

text \<open>
  The synchronous part of \<open>updateCalculatedValues\<close>: with a recomputation in flight
  the call resolves at once to the empty list, and otherwise it starts one.
\<close>

datatype call_result = ResolvedEmpty | Started

definition updateCalculatedValues ::
  "('d, 't, 'v) IProps \<Rightarrow> string option \<Rightarrow> ('d, 't, 'v, 'o) SuperTable
   \<Rightarrow> call_result \<times> ('d, 't, 'v, 'o) SuperTable" where
  "updateCalculatedValues props forceUpdateId tb =
     (let tb1 = tb\<lparr> mNextUpdateState := Some props \<rparr> in
      if mUpdateInProgress tb1 then (ResolvedEmpty, tb1)
      else (Started,
            tb1\<lparr> mUpdateInProgress := True,
                 in_flight := Some (props, forceUpdateId),
                 started := started tb1 @ [(props, forceUpdateId)] \<rparr>))"

text \<open>
  The promise chain of the call in flight, run to its end: it resolves to the changed
  columns, it hands over to a follow-up recomputation, it rejects, or it never settles.
  Between the start of the call and the end of the chain nothing else assigns
  \<open>calculatedValues\<close> or \<open>mLastUpdateState\<close>, so they are read here. With no call
  in flight there is no chain to run.
\<close>

datatype chain_result = Resolved "string list" | FollowUp | Failed string | NeverSettles

definition finish ::
  "('d, 't, 'v, 'o) SuperTable \<Rightarrow> chain_result \<times> ('d, 't, 'v, 'o) SuperTable" where
  "finish tb =
     (case in_flight tb of
        None \<Rightarrow> (Resolved [], tb)
      | Some (props, forceUpdateId) \<Rightarrow>
          (case recalculate props forceUpdateId (mLastUpdateState tb)
                  (calculatedValues (this_state tb)) of
             Inl (err, pr) \<Rightarrow>
               (Failed err,
                (mutated_in_place pr tb)\<lparr> mUpdateInProgress := False, in_flight := None \<rparr>)
           | Inr pr \<Rightarrow>
               (let tb1 = mutated_in_place pr tb in
                case updateState ((mNextState tb1)\<lparr> calculatedValues := Some (newValues pr) \<rparr>)
                       tb1 of
                  (False, tb2) \<Rightarrow> (NeverSettles, tb2)
                | (True, tb2) \<Rightarrow>
                    (let tb3 = updateDetailIds
                                 (map fst (filter (\<lambda>r. selected (snd r))
                                    (rowState (this_state tb2)))) tb2;
                         tb4 = tb3\<lparr> mUpdateInProgress := False,
                                    mLastUpdateState := Some props,
                                    in_flight := None \<rparr>
                     in case mNextUpdateState tb4 of
                          None \<Rightarrow> (Failed ''TypeError'', tb4)
                        | Some next \<Rightarrow>
                            if props_ref next \<noteq> props_ref props
                            then (FollowUp, snd (updateCalculatedValues next None tb4))
                            else (Resolved (changedColumns pr), tb4)))))"

subsection \<open>Sorting the rows\<close>









subsection \<open>A concrete table\<close>

text \<open>
  One column whose \<open>sortFunc\<close> ties every pair of rows and whose \<open>sortFuncRaw\<close> puts
  the larger raw value first, two rows, and a component whose first recomputation, for
  the props with the first row alone, is in flight.
\<close>

definition example_sortFunc :: "nat cell \<Rightarrow> nat cell \<Rightarrow> string \<Rightarrow> int" where
  "example_sortFunc lhs rhs locale = 0"

definition example_sortFuncRaw :: "nat option \<Rightarrow> nat option \<Rightarrow> string \<Rightarrow> int" where
  "example_sortFuncRaw lhs rhs locale =
     (case (lhs, rhs) of
        (Some x, Some y) \<Rightarrow> (if y < x then - 1 else if x = y then 0 else 1)
      | _ \<Rightarrow> 0)"


definition example_attribute :: "(nat, unit, nat) ITableAttribute" where
  "example_attribute =
     \<lparr> attr_id = ''size'', isVolatile = False, calc = (\<lambda>d tr. Inr (Val d)),
       sortFunc = Some example_sortFunc, sortFuncRaw = Some example_sortFuncRaw \<rparr>"

definition example_rows :: "(string \<times> nat obj) list" where
  "example_rows = [(''a'', Obj 1 10), (''b'', Obj 2 20)]"


definition example_attrState :: "(string \<times> IAttributeState) list" where
  "example_attrState = [(''size'', \<lparr> enabled = True, sortDirection = Some Asc \<rparr>)]"

definition example_props :: "nat \<Rightarrow> (string \<times> nat obj) list \<Rightarrow> (nat, unit, nat) IProps" where
  "example_props r rows =
     \<lparr> props_ref = r, props_t = (), props_data = rows, objects = [example_attribute],
       attributeState = example_attrState, language = ''en'' \<rparr>"

definition example_table :: "(nat, unit, nat, unit) SuperTable" where
  "example_table =
     \<lparr> this_state = \<lparr> calculatedValues = None, rowState = [], others = () \<rparr>,
       mNextState = \<lparr> calculatedValues = None, rowState = [], others = () \<rparr>,
       mLastUpdateState = None,
       mNextUpdateState = Some (example_props 0 [(''a'', Obj 1 10)]),
       mUpdateInProgress = True,
       mMounted = True,
       mLastDetailIds = [],
       mDetailTimer = None,
       in_flight = Some (example_props 0 [(''a'', Obj 1 10)], None),
       started = [(example_props 0 [(''a'', Obj 1 10)], None)] \<rparr>"

section \<open>Properties of the Steam lookup stub\<close>

text \<open>
  C1. In the default Steam implementation \<open>findByName\<close>, \<open>findByAppId\<close> and
  \<open>getGameExecutionInfo\<close> reject with a \<open>GameNotFound\<close> error and \<open>allGames\<close>
  resolves to the empty list, whatever the arguments are.
\<close>

theorem steam_default_not_found_or_empty:
  "findByName namePattern = Rejected (ErrGameNotFound (new_GameNotFound namePattern))
   \<and> is_not_found (findByName namePattern)
   \<and> findByAppId appId = Rejected (ErrGameNotFound (new_GameNotFound ''''))
   \<and> is_not_found (findByAppId appId)
   \<and> allGames = Fulfilled []
   \<and> getGameExecutionInfo gp appNo args = Rejected (ErrGameNotFound (new_GameNotFound gp))
   \<and> is_not_found (getGameExecutionInfo gp appNo args)"
  by (simp add: findByName_def findByAppId_def allGames_def getGameExecutionInfo_def)

text \<open>
  C7. A \<open>GamePathNotMatched\<close> error built from a game path and a list of entry paths
  gives back exactly these from \<open>gamePath\<close> and \<open>steamEntryPaths\<close>, and a
  \<open>GameNotFound\<close> error built from a search term gives back that term from \<open>search\<close>.
\<close>

theorem steam_errors_carry_context:
  "gamePath (new_GamePathNotMatched gp entries) = gp
   \<and> steamEntryPaths (new_GamePathNotMatched gp entries) = entries
   \<and> search (new_GameNotFound term) = term"
  by (simp add: gamePath_def steamEntryPaths_def search_def
        new_GamePathNotMatched_def new_GameNotFound_def)

section \<open>Properties of the memoization helper\<close>

lemma lazy_calls_cached:
  "lazy_value c = Some v \<Longrightarrow> lazy_calls func n (c, s) = (replicate n (Some v), c, s)"
  by (induction n) (simp_all add: lazy_call_def)

lemma lazy_calls_undefined:
  "\<forall>s. fst (func s) = None \<Longrightarrow> lazy_value c = None \<Longrightarrow>
   length (fst (lazy_calls func n (c, s))) = n
   \<and> set (fst (lazy_calls func n (c, s))) \<subseteq> {None}
   \<and> invocations (fst (snd (lazy_calls func n (c, s)))) = invocations c + n"
proof (induction n arbitrary: c s)
  case 0
  then show ?case by simp
next
  case (Suc n)
  obtain s' where f: "func s = (None, s')"
    using Suc.prems(1) by (metis fst_conv surj_pair)
  let ?c' = "\<lparr> lazy_value = None, invocations = Suc (invocations c) \<rparr>"
  have step: "lazy_call func (c, s) = (None, ?c', s')"
    using Suc.prems(2) f by (simp add: lazy_call_def)
  have ih: "length (fst (lazy_calls func n (?c', s'))) = n
     \<and> set (fst (lazy_calls func n (?c', s'))) \<subseteq> {None}
     \<and> invocations (fst (snd (lazy_calls func n (?c', s')))) = invocations ?c' + n"
    using Suc.IH [of ?c' s'] Suc.prems(1) by simp
  show ?case
    using ih step by (auto split: prod.splits)
qed

text \<open>
  C9. When the thunk's first result \<open>v\<close> is not \<open>undefined\<close>, any number \<open>n > 0\<close>
  of calls of \<open>lazy(func)\<close> invokes the thunk exactly once: each call returns \<open>v\<close>, and
  the world is the one the single invocation left. When the thunk returns \<open>undefined\<close>
  every time, each of the \<open>n\<close> calls invokes it again and returns \<open>undefined\<close>.
\<close>

theorem lazy_invokes_once:
  "(func s = (Some v, s') \<longrightarrow>
      lazy_calls func (Suc n) (lazy, s)
        = (replicate (Suc n) (Some v), \<lparr> lazy_value = Some v, invocations = 1 \<rparr>, s'))
   \<and> ((\<forall>s. fst (func s) = None) \<longrightarrow>
      length (fst (lazy_calls func n (lazy, s))) = n
      \<and> set (fst (lazy_calls func n (lazy, s))) \<subseteq> {None}
      \<and> invocations (fst (snd (lazy_calls func n (lazy, s)))) = n)"
proof (intro conjI impI)
  assume f: "func s = (Some v, s')"
  have "lazy_call func (lazy, s) = (Some v, \<lparr> lazy_value = Some v, invocations = 1 \<rparr>, s')"
    using f by (simp add: lazy_call_def lazy_def)
  then show "lazy_calls func (Suc n) (lazy, s)
        = (replicate (Suc n) (Some v), \<lparr> lazy_value = Some v, invocations = 1 \<rparr>, s')"
    by (simp add: lazy_calls_cached)
next
  assume u: "\<forall>s. fst (func s) = None"
  show "length (fst (lazy_calls func n (lazy, s))) = n"
    "set (fst (lazy_calls func n (lazy, s))) \<subseteq> {None}"
    "invocations (fst (snd (lazy_calls func n (lazy, s)))) = n"
    using lazy_calls_undefined [OF u, of lazy n s] by (simp_all add: lazy_def)
qed

text \<open>
  Three calls on a counter that returns its reading and counts up: one invocation, the
  first reading three times. Three calls on a thunk that returns \<open>undefined\<close>: three
  invocations.
\<close>

theorem lazy_invokes_once_witness:
  "(\<lambda>k::nat. (Some k, Suc k)) 5 = (Some 5, 6)
   \<and> lazy_calls (\<lambda>k::nat. (Some k, Suc k)) 3 (lazy, 5)
       = ([Some 5, Some 5, Some 5], \<lparr> lazy_value = Some 5, invocations = 1 \<rparr>, 6)
   \<and> (\<forall>s::nat. fst ((\<lambda>k. (None :: nat option, Suc k)) s) = None)
   \<and> invocations (fst (snd (lazy_calls (\<lambda>k::nat. (None :: nat option, Suc k)) 3 (lazy, 5)))) = 3"
  using lazy_invokes_once [of "\<lambda>k::nat. (Some k, Suc k)" 5 5 6 2]
    lazy_invokes_once [of "\<lambda>k::nat. (None :: nat option, Suc k)" 5 0 0 3]
  by (simp add: numeral_3_eq_3)

section \<open>Properties of the state backup writer\<close>


lemma backupPath_eq:
  "backupPath e w =
     (case lazy_value (backupPath_cell w) of
        None \<Rightarrow> (temp e @ [''state_backups''],
                 w\<lparr> backupPath_cell := \<lparr> lazy_value = Some (temp e @ [''state_backups'']),
                        invocations = Suc (invocations (backupPath_cell w)) \<rparr> \<rparr>)
      | Some p \<Rightarrow> (p, w))"
  by (simp add: backupPath_def lazy_call_def path_join_def split: option.splits)

lemma backupPath_first:
  obtains w1 where "backupPath e w = (fst (backupPath e w), w1)"
    and "lazy_value (backupPath_cell w1) = Some (fst (backupPath e w))"
    and "backups w1 = backups w" and "files w1 = files w" and "dirs w1 = dirs w"
    and "logged w1 = logged w" and "io_trace w1 = io_trace w"
  by (cases "lazy_value (backupPath_cell w)") (simp_all add: backupPath_eq)

lemma backupPath_cached:
  "lazy_value (backupPath_cell w) = Some d \<Longrightarrow> backupPath e w = (d, w)"
  by (simp add: backupPath_eq)

lemma readFile_world: "snd (readFile e p w) = attempt ReadFile p w"
  by (simp add: readFile_def split: option.splits)

lemma readFile_files: "files w1 = files w \<Longrightarrow> fst (readFile e p w1) = fst (readFile e p w)"
  by (simp add: readFile_def split: option.splits)

lemma attempt_fields [simp]:
  "backups (attempt op p w) = backups w"
  "backupPath_cell (attempt op p w) = backupPath_cell w"
  "files (attempt op p w) = files w"
  "dirs (attempt op p w) = dirs w"
  "logged (attempt op p w) = logged w"
  "io_trace (attempt op p w) = io_trace w @ [(op, p)]"
  by (simp_all add: attempt_def)

lemma log_warn_fields [simp]:
  "backups (log_warn m err w) = backups w"
  "backupPath_cell (log_warn m err w) = backupPath_cell w"
  "files (log_warn m err w) = files w"
  "dirs (log_warn m err w) = dirs w"
  "logged (log_warn m err w) = logged w @ [(''warn'', m, err)]"
  "io_trace (log_warn m err w) = io_trace w"
  by (simp_all add: log_warn_def)

lemma ensureDir_ok:
  "\<not> io_fails e EnsureDir d \<Longrightarrow>
   ensureDir e d w = (Inr (), attempt EnsureDir d (w\<lparr> dirs := List.insert d (dirs w) \<rparr>))"
  by (simp add: ensureDir_def)

lemma writeFile_ok:
  "\<not> io_fails e WriteFile p \<Longrightarrow> butlast p \<in> set (dirs w) \<Longrightarrow>
   writeFile e p c w = (Inr (), attempt WriteFile p (w\<lparr> files := AList.update p c (files w) \<rparr>))"
  by (simp add: writeFile_def)

lemma spread_empty_obj [simp]: "spread kvs (JObj []) = kvs"
  by (simp add: spread_def)


lemma backupPath_fst:
  "fst (backupPath e w) =
     (case lazy_value (backupPath_cell w) of None \<Rightarrow> temp e @ [''state_backups''] | Some p \<Rightarrow> p)"
  by (simp add: backupPath_eq split: option.splits)

lemma write_phase:
  assumes ex: "existing_backup e backupId w = ((b, existingData), w1)"
    and d: "d = fst (backupPath e w1)"
    and p: "p = path_join d (makeName (backups w1 b))"
    and ok1: "\<not> io_fails e EnsureDir d"
    and ok2: "\<not> io_fails e WriteFile p"
  shows "fst (createStateBackupSync e backupId data w) = Inr b"
    and "files (snd (createStateBackupSync e backupId data w))
          = AList.update p (stringify e (JObj (spread (spread [] existingData) data))) (files w1)"
    and "backups (snd (createStateBackupSync e backupId data w)) = backups w1"
    and "logged (snd (createStateBackupSync e backupId data w)) = logged w1"
    and "io_trace (snd (createStateBackupSync e backupId data w))
          = io_trace w1 @ [(EnsureDir, d), (WriteFile, p)]"
    and "lazy_value (backupPath_cell (snd (createStateBackupSync e backupId data w))) = Some d"
proof -
  obtain w2 where b1: "backupPath e w1 = (d, w2)"
    and cell: "lazy_value (backupPath_cell w2) = Some d"
    and same: "backups w2 = backups w1" "files w2 = files w1" "dirs w2 = dirs w1"
      "logged w2 = logged w1" "io_trace w2 = io_trace w1"
    unfolding d by (rule backupPath_first)
  let ?w3 = "attempt EnsureDir d (w2\<lparr> dirs := List.insert d (dirs w2) \<rparr>)"
  have e1: "ensureDir e d w2 = (Inr (), ?w3)"
    using ok1 by (rule ensureDir_ok)
  have b2: "backupPath e ?w3 = (d, ?w3)"
    using cell by (simp add: backupPath_cached)
  have "butlast p \<in> set (dirs ?w3)"
    by (simp add: p path_join_def)
  then have w: "writeFile e p c ?w3
      = (Inr (), attempt WriteFile p (?w3\<lparr> files := AList.update p c (files ?w3) \<rparr>))" for c
    using ok2 by (simp add: writeFile_ok)
  have pb: "path_join d (makeName (backups w2 b)) = p"
    by (simp add: p same)
  have res: "createStateBackupSync e backupId data w =
     (Inr b, attempt WriteFile p (?w3\<lparr> files := AList.update p
        (stringify e (JObj (spread (spread [] existingData) data))) (files ?w3) \<rparr>))"
    by (simp add: createStateBackupSync_def ex b1 e1 b2 pb w)
  show "fst (createStateBackupSync e backupId data w) = Inr b"
    by (simp add: res)
  show "files (snd (createStateBackupSync e backupId data w))
          = AList.update p (stringify e (JObj (spread (spread [] existingData) data))) (files w1)"
    by (simp add: res same)
  show "backups (snd (createStateBackupSync e backupId data w)) = backups w1"
    by (simp add: res same)
  show "logged (snd (createStateBackupSync e backupId data w)) = logged w1"
    by (simp add: res same)
  show "io_trace (snd (createStateBackupSync e backupId data w))
          = io_trace w1 @ [(EnsureDir, d), (WriteFile, p)]"
    by (simp add: res same)
  show "lazy_value (backupPath_cell (snd (createStateBackupSync e backupId data w))) = Some d"
    by (simp add: res cell)
qed


lemma existing_backup_known:
  assumes known: "backups w b = Some t"
    and d: "d = fst (backupPath e w)"
    and p: "p = path_join d (makeName (Some t))"
  obtains w1 where
    "existing_backup e (Some b) w =
       (case fst (readFile e p w) of
          Inl err \<Rightarrow> ((b, JObj []), log_warn ''failed to read existing backup data'' err w1)
        | Inr oldData \<Rightarrow>
            (case parse e oldData of
               None \<Rightarrow> ((b, JObj []),
                  log_warn ''failed to read existing backup data'' (SyntaxError oldData) w1)
             | Some existingData \<Rightarrow> ((b, existingData), w1)))"
    and "lazy_value (backupPath_cell w1) = Some d"
    and "backups w1 = backups w" and "files w1 = files w" and "dirs w1 = dirs w"
    and "logged w1 = logged w" and "io_trace w1 = io_trace w @ [(ReadFile, p)]"
proof -
  obtain w0 where b1: "backupPath e w = (d, w0)"
    and cell: "lazy_value (backupPath_cell w0) = Some d"
    and same: "backups w0 = backups w" "files w0 = files w" "dirs w0 = dirs w"
      "logged w0 = logged w" "io_trace w0 = io_trace w"
    unfolding d by (rule backupPath_first)
  have r: "readFile e p w0 = (fst (readFile e p w), attempt ReadFile p w0)"
    using readFile_world [of e p w0] readFile_files [OF same(2), of e p]
    by (metis prod.collapse)
  have pb: "path_join d (makeName (backups w0 b)) = p"
    by (simp add: p same known)
  have "existing_backup e (Some b) w =
       (case fst (readFile e p w) of
          Inl err \<Rightarrow> ((b, JObj []),
             log_warn ''failed to read existing backup data'' err (attempt ReadFile p w0))
        | Inr oldData \<Rightarrow>
            (case parse e oldData of
               None \<Rightarrow> ((b, JObj []),
                  log_warn ''failed to read existing backup data'' (SyntaxError oldData)
                    (attempt ReadFile p w0))
             | Some existingData \<Rightarrow> ((b, existingData), attempt ReadFile p w0)))"
  proof (cases "fst (readFile e p w)")
    case (Inl err)
    then show ?thesis
      using r by (simp add: existing_backup_def known b1 pb)
  next
    case (Inr oldData)
    then show ?thesis
      using r by (cases "parse e oldData") (simp_all add: existing_backup_def known b1 pb)
  qed
  then show thesis
    using cell same by (intro that [of "attempt ReadFile p w0"]) simp_all
qed



text \<open>
  C5. When \<open>createStateBackupSync\<close> is called with a registered id and reading the
  existing backup file fails, or the text read does not parse, the call still succeeds
  as long as the directory can be ensured and the file can be written: it returns the
  id it was given, the file of that id now holds the new data alone (spread into the
  empty object), one warning has been logged, and no id has been registered.
\<close>

theorem createStateBackupSync_read_failure_nonfatal:
  assumes known: "backups w b = Some t"
    and d: "d = fst (backupPath e w)"
    and p: "p = path_join d (makeName (Some t))"
    and fail: "(\<exists>err. fst (readFile e p w) = Inl err)
       \<or> (\<exists>c. fst (readFile e p w) = Inr c \<and> parse e c = None)"
    and ok1: "\<not> io_fails e EnsureDir d"
    and ok2: "\<not> io_fails e WriteFile p"
  shows "fst (createStateBackupSync e (Some b) data w) = Inr b
    \<and> files (snd (createStateBackupSync e (Some b) data w))
        = AList.update p (stringify e (JObj (spread [] data))) (files w)
    \<and> (\<exists>err. logged (snd (createStateBackupSync e (Some b) data w))
          = logged w @ [(''warn'', ''failed to read existing backup data'', err)])
    \<and> backups (snd (createStateBackupSync e (Some b) data w)) = backups w"
proof -
  obtain w1 where ex: "existing_backup e (Some b) w =
       (case fst (readFile e p w) of
          Inl err \<Rightarrow> ((b, JObj []), log_warn ''failed to read existing backup data'' err w1)
        | Inr oldData \<Rightarrow>
            (case parse e oldData of
               None \<Rightarrow> ((b, JObj []),
                  log_warn ''failed to read existing backup data'' (SyntaxError oldData) w1)
             | Some existingData \<Rightarrow> ((b, existingData), w1)))"
    and cell: "lazy_value (backupPath_cell w1) = Some d"
    and same: "backups w1 = backups w" "files w1 = files w" "dirs w1 = dirs w"
      "logged w1 = logged w" "io_trace w1 = io_trace w @ [(ReadFile, p)]"
    by (rule existing_backup_known [OF known d p])
  from fail have "\<exists>err. existing_backup e (Some b) w
            = ((b, JObj []), log_warn ''failed to read existing backup data'' err w1)"
  proof
    assume "\<exists>err. fst (readFile e p w) = Inl err"
    then show ?thesis by (auto simp: ex)
  next
    assume "\<exists>c. fst (readFile e p w) = Inr c \<and> parse e c = None"
    then show ?thesis by (auto simp: ex)
  qed
  then obtain err where
    ex': "existing_backup e (Some b) w
            = ((b, JObj []), log_warn ''failed to read existing backup data'' err w1)"
    by blast
  let ?w = "log_warn ''failed to read existing backup data'' err w1"
  have d': "d = fst (backupPath e ?w)"
    using cell by (simp add: backupPath_fst)
  have p': "p = path_join d (makeName (backups ?w b))"
    by (simp add: p same known)
  note wp = write_phase [OF ex' d' p' ok1 ok2, of data]
  show ?thesis
    using wp(1-4) by (simp add: same)
qed


theorem createStateBackupSync_read_failure_nonfatal_witness:
  "backups (example_world ''not json'') ''id1'' = Some 42
   \<and> parse example_env ''not json'' = None
   \<and> fst (createStateBackupSync example_env (Some ''id1'')
          (JObj [(''b'', JNum 3), (''c'', JNum 4)]) (example_world ''not json'')) = Inr ''id1''
   \<and> files (snd (createStateBackupSync example_env (Some ''id1'')
          (JObj [(''b'', JNum 3), (''c'', JNum 4)]) (example_world ''not json'')))
       = [([''tmp'', ''state_backups'', ''backup_42.json''], ''{b:3,c:4}''),
          ([''tmp'', ''state_backups'', ''locked''], ''x'')]"
proof -
  let ?w = "example_world ''not json''"
  let ?d = "[''tmp'', ''state_backups'']"
  let ?p = "[''tmp'', ''state_backups'', ''backup_42.json'']"
  have known: "backups ?w ''id1'' = Some 42"
    by (simp add: example_world_def)
  have d: "?d = fst (backupPath example_env ?w)"
    by (simp add: backupPath_fst example_world_def example_env_def lazy_def)
  have p: "?p = path_join ?d (makeName (Some 42))"
    by (simp add: path_join_def show_nat.simps digit_char_def)
  have fail: "(\<exists>err. fst (readFile example_env ?p ?w) = Inl err)
       \<or> (\<exists>c. fst (readFile example_env ?p ?w) = Inr c \<and> parse example_env c = None)"
    by (simp add: readFile_def example_world_def example_env_def)
  have ok1: "\<not> io_fails example_env EnsureDir ?d"
    by (simp add: example_env_def)
  have ok2: "\<not> io_fails example_env WriteFile ?p"
    by (simp add: example_env_def)
  show ?thesis
    using createStateBackupSync_read_failure_nonfatal [OF known d p fail ok1 ok2,
        of "JObj [(''b'', JNum 3), (''c'', JNum 4)]"]
    by (simp add: spread_def) (simp add: example_world_def example_env_def)
qed







lemma remove_eq:
  "remove e p w =
     (if io_fails e Remove p then (Inl (IOError Remove p), attempt Remove p w)
      else (Inr (), attempt Remove p (w\<lparr> files := AList.delete p (files w) \<rparr>)))"
  by (simp add: remove_def)

lemma delete_one_fields:
  assumes d: "d = fst (backupPath e w)"
  shows "io_trace (delete_one e n w) = io_trace w @ [(Remove, path_join d n)]"
    and "files (delete_one e n w)
          = (if io_fails e Remove (path_join d n) then files w
             else AList.delete (path_join d n) (files w))"
    and "fst (backupPath e (delete_one e n w)) = d"
    and "backups (delete_one e n w) = backups w"
    and "dirs (delete_one e n w) = dirs w"
    and "logged (delete_one e n w) = logged w"
proof -
  obtain w1 where b1: "backupPath e w = (d, w1)"
    and cell: "lazy_value (backupPath_cell w1) = Some d"
    and same: "backups w1 = backups w" "files w1 = files w" "dirs w1 = dirs w"
      "logged w1 = logged w" "io_trace w1 = io_trace w"
    unfolding d by (rule backupPath_first)
  have res: "delete_one e n w =
      (if io_fails e Remove (path_join d n) then attempt Remove (path_join d n) w1
       else attempt Remove (path_join d n)
              (w1\<lparr> files := AList.delete (path_join d n) (files w1) \<rparr>))"
    by (simp add: delete_one_def b1 remove_eq)
  show "io_trace (delete_one e n w) = io_trace w @ [(Remove, path_join d n)]"
    by (simp add: res same)
  show "files (delete_one e n w)
          = (if io_fails e Remove (path_join d n) then files w
             else AList.delete (path_join d n) (files w))"
    by (simp add: res same)
  show "fst (backupPath e (delete_one e n w)) = d"
    by (simp add: res backupPath_fst cell)
  show "backups (delete_one e n w) = backups w"
    by (simp add: res same)
  show "dirs (delete_one e n w) = dirs w"
    by (simp add: res same)
  show "logged (delete_one e n w) = logged w"
    by (simp add: res same)
qed

lemma fold_delete_one:
  "d = fst (backupPath e w) \<Longrightarrow>
   io_trace (fold (delete_one e) names w)
     = io_trace w @ map (\<lambda>n. (Remove, path_join d n)) names
   \<and> files (fold (delete_one e) names w)
     = fold (\<lambda>n fs. if io_fails e Remove (path_join d n) then fs
                      else AList.delete (path_join d n) fs) names (files w)
   \<and> backups (fold (delete_one e) names w) = backups w
   \<and> logged (fold (delete_one e) names w) = logged w"
proof (induction names arbitrary: w)
  case Nil
  then show ?case by simp
next
  case (Cons n names)
  note f = delete_one_fields [OF Cons.prems, of n]
  have d': "d = fst (backupPath e (delete_one e n w))"
    by (simp add: f(3))
  show ?case
    using Cons.IH [OF d'] by (simp add: f)
qed

lemma fold_delete_keeps_absent:
  "map_of fs p = None \<Longrightarrow>
   map_of (fold (\<lambda>n fs. if c n then fs else AList.delete (g n) fs) names fs) p = None"
  by (induction names arbitrary: fs) (simp_all add: AList.delete_conv')

lemma fold_delete_removes:
  "n \<in> set names \<Longrightarrow> \<not> c n \<Longrightarrow>
   map_of (fold (\<lambda>n fs. if c n then fs else AList.delete (g n) fs) names fs) (g n) = None"
proof (induction names arbitrary: fs)
  case Nil
  then show ?case by simp
next
  case (Cons m names)
  show ?case
  proof (cases "m = n")
    case True
    then show ?thesis
      using Cons.prems(2) by (simp add: fold_delete_keeps_absent AList.delete_conv')
  next
    case False
    then have "n \<in> set names"
      using Cons.prems(1) by simp
    then show ?thesis
      using Cons.IH Cons.prems(2) by simp
  qed
qed

lemma fold_delete_keeps_others:
  "\<forall>n \<in> set names. g n \<noteq> p \<Longrightarrow>
   map_of (fold (\<lambda>n fs. if c n then fs else AList.delete (g n) fs) names fs) p = map_of fs p"
  by (induction names arbitrary: fs) (auto simp: AList.delete_conv')

text \<open>
  C6. \<open>deleteBackups\<close> always resolves. Whatever removals fail, it attempts the removal
  of every name of the list, in the backup directory and in the order of the list, and
  every file whose removal does not fail is gone afterwards.
\<close>

theorem deleteBackups_suppresses_failures:
  "fst (deleteBackups e names w) = Fulfilled ()
   \<and> io_trace (snd (deleteBackups e names w))
       = io_trace w @ map (\<lambda>n. (Remove, path_join (fst (backupPath e w)) n)) names
   \<and> (\<forall>n \<in> set names. \<not> io_fails e Remove (path_join (fst (backupPath e w)) n) \<longrightarrow>
         map_of (files (snd (deleteBackups e names w))) (path_join (fst (backupPath e w)) n)
           = None)"
proof (intro conjI ballI impI)
  let ?d = "fst (backupPath e w)"
  note f = fold_delete_one [OF refl, where e = e and w = w and names = names]
  show "fst (deleteBackups e names w) = Fulfilled ()"
    by (simp add: deleteBackups_def)
  show "io_trace (snd (deleteBackups e names w))
       = io_trace w @ map (\<lambda>n. (Remove, path_join ?d n)) names"
    using f by (simp add: deleteBackups_def)
  fix n
  assume "n \<in> set names" "\<not> io_fails e Remove (path_join ?d n)"
  then show "map_of (files (snd (deleteBackups e names w))) (path_join ?d n) = None"
    using f fold_delete_removes [of n names "\<lambda>n. io_fails e Remove (path_join ?d n)"
        "\<lambda>n. path_join ?d n" "files w"]
    by (simp add: deleteBackups_def)
qed

theorem deleteBackups_suppresses_failures_witness:
  "io_fails example_env Remove [''tmp'', ''state_backups'', ''locked'']
   \<and> fst (deleteBackups example_env [''missing'', ''locked'', ''backup_42.json'']
          (example_world ''{a:1,b:2}'')) = Fulfilled ()
   \<and> io_trace (snd (deleteBackups example_env [''missing'', ''locked'', ''backup_42.json'']
          (example_world ''{a:1,b:2}'')))
       = [(Remove, [''tmp'', ''state_backups'', ''missing'']),
          (Remove, [''tmp'', ''state_backups'', ''locked'']),
          (Remove, [''tmp'', ''state_backups'', ''backup_42.json''])]
   \<and> map_of (files (snd (deleteBackups example_env [''missing'', ''locked'', ''backup_42.json'']
          (example_world ''{a:1,b:2}'')))) [''tmp'', ''state_backups'', ''backup_42.json'']
       = None"
proof -
  let ?w = "example_world ''{a:1,b:2}''"
  have d: "fst (backupPath example_env ?w) = [''tmp'', ''state_backups'']"
    by (simp add: backupPath_fst example_world_def example_env_def lazy_def)
  have e: "io_fails example_env Remove [''tmp'', ''state_backups'', ''locked'']"
    "\<not> io_fails example_env Remove [''tmp'', ''state_backups'', ''backup_42.json'']"
    by (simp_all add: example_env_def)
  have w: "io_trace ?w = []"
    by (simp add: example_world_def)
  show ?thesis
    using deleteBackups_suppresses_failures [of example_env
        "[''missing'', ''locked'', ''backup_42.json'']" ?w]
    by (simp add: d e w path_join_def)
qed












section \<open>Properties of the table component\<close>

lemma updateCalculatedValues_in_progress:
  "mUpdateInProgress tb \<Longrightarrow>
   updateCalculatedValues props forceUpdateId tb
     = (ResolvedEmpty, tb\<lparr> mNextUpdateState := Some props \<rparr>)"
  by (simp add: updateCalculatedValues_def)

lemma updateCalculatedValues_idle:
  "\<not> mUpdateInProgress tb \<Longrightarrow>
   updateCalculatedValues props forceUpdateId tb
     = (Started, tb\<lparr> mNextUpdateState := Some props, mUpdateInProgress := True,
                      in_flight := Some (props, forceUpdateId),
                      started := started tb @ [(props, forceUpdateId)] \<rparr>)"
  by (simp add: updateCalculatedValues_def)

lemma overlapping_calls:
  "mUpdateInProgress tb \<Longrightarrow> calls \<noteq> [] \<Longrightarrow>
   fold (\<lambda>c tb. snd (updateCalculatedValues (fst c) (snd c) tb)) calls tb
     = tb\<lparr> mNextUpdateState := Some (fst (last calls)) \<rparr>"
proof (induction calls arbitrary: tb)
  case Nil
  then show ?case by simp
next
  case (Cons c calls)
  show ?case
  proof (cases "calls = []")
    case True
    then show ?thesis
      using Cons.prems(1) by (simp add: updateCalculatedValues_in_progress)
  next
    case False
    then show ?thesis
      using Cons.IH [of "tb\<lparr> mNextUpdateState := Some (fst c) \<rparr>"] Cons.prems(1)
      by (simp add: updateCalculatedValues_in_progress)
  qed
qed

lemma mutated_in_place_fields [simp]:
  "mNextUpdateState (mutated_in_place pr tb) = mNextUpdateState tb"
  "mLastUpdateState (mutated_in_place pr tb) = mLastUpdateState tb"
  "mUpdateInProgress (mutated_in_place pr tb) = mUpdateInProgress tb"
  "mMounted (mutated_in_place pr tb) = mMounted tb"
  "in_flight (mutated_in_place pr tb) = in_flight tb"
  "started (mutated_in_place pr tb) = started tb"
  by (simp_all add: mutated_in_place_def split: option.splits)

lemma updateState_fields [simp]:
  "mNextUpdateState (snd (updateState s tb)) = mNextUpdateState tb"
  "mLastUpdateState (snd (updateState s tb)) = mLastUpdateState tb"
  "mUpdateInProgress (snd (updateState s tb)) = mUpdateInProgress tb"
  "mMounted (snd (updateState s tb)) = mMounted tb"
  "in_flight (snd (updateState s tb)) = in_flight tb"
  "started (snd (updateState s tb)) = started tb"
  by (simp_all add: updateState_def)

lemma updateDetailIds_fields [simp]:
  "mNextUpdateState (updateDetailIds ids tb) = mNextUpdateState tb"
  "mLastUpdateState (updateDetailIds ids tb) = mLastUpdateState tb"
  "mUpdateInProgress (updateDetailIds ids tb) = mUpdateInProgress tb"
  "mMounted (updateDetailIds ids tb) = mMounted tb"
  "in_flight (updateDetailIds ids tb) = in_flight tb"
  "started (updateDetailIds ids tb) = started tb"
  "this_state (updateDetailIds ids tb) = this_state tb"
  "mNextState (updateDetailIds ids tb) = mNextState tb"
  by (simp_all add: updateDetailIds_def)

text \<open>The end of a chain that neither rejects nor hangs.\<close>

lemma finish_settles:
  assumes job: "in_flight tb = Some (props, forceUpdateId)"
    and nxt: "mNextUpdateState tb = Some latest"
    and settles: "fst (finish tb) \<noteq> NeverSettles" "\<forall>err. fst (finish tb) \<noteq> Failed err"
  shows "props_ref latest \<noteq> props_ref props \<Longrightarrow>
           fst (finish tb) = FollowUp
           \<and> started (snd (finish tb)) = started tb @ [(latest, None)]
           \<and> in_flight (snd (finish tb)) = Some (latest, None)
           \<and> mUpdateInProgress (snd (finish tb))
           \<and> mLastUpdateState (snd (finish tb)) = Some props"
    and "props_ref latest = props_ref props \<Longrightarrow>
           (\<exists>cols. fst (finish tb) = Resolved cols)
           \<and> started (snd (finish tb)) = started tb
           \<and> in_flight (snd (finish tb)) = None
           \<and> \<not> mUpdateInProgress (snd (finish tb))
           \<and> mLastUpdateState (snd (finish tb)) = Some props"
proof -
  obtain pr where rc: "recalculate props forceUpdateId (mLastUpdateState tb)
        (calculatedValues (this_state tb)) = Inr pr"
    using settles(2) job
    by (cases "recalculate props forceUpdateId (mLastUpdateState tb)
        (calculatedValues (this_state tb))") (auto simp: finish_def)
  let ?tb1 = "mutated_in_place pr tb"
  let ?new = "(mNextState ?tb1)\<lparr> calculatedValues := Some (newValues pr) \<rparr>"
  obtain cb tb2 where us: "updateState ?new ?tb1 = (cb, tb2)"
    by (cases "updateState ?new ?tb1")
  have cb: "cb"
    using settles(1) job rc us by (cases cb) (simp_all add: finish_def)
  have tb2: "mNextUpdateState tb2 = Some latest" "started tb2 = started tb"
    using updateState_fields(1,6) [of ?new ?tb1] us nxt by simp_all
  define tb4 where "tb4 = (updateDetailIds
       (map fst (filter (\<lambda>r. selected (snd r)) (rowState (this_state tb2)))) tb2)
         \<lparr> mUpdateInProgress := False, mLastUpdateState := Some props, in_flight := None \<rparr>"
  have nx4: "mNextUpdateState tb4 = Some latest"
    by (simp add: tb4_def tb2)
  have fin: "finish tb =
      (if props_ref latest \<noteq> props_ref props
       then (FollowUp, snd (updateCalculatedValues latest None tb4))
       else (Resolved (changedColumns pr), tb4))"
    using cb by (simp add: finish_def job rc us Let_def tb4_def tb2)
  have tb4: "started tb4 = started tb" "\<not> mUpdateInProgress tb4" "in_flight tb4 = None"
    "mLastUpdateState tb4 = Some props"
    by (simp_all add: tb4_def tb2)
  show "props_ref latest \<noteq> props_ref props \<Longrightarrow>
           fst (finish tb) = FollowUp
           \<and> started (snd (finish tb)) = started tb @ [(latest, None)]
           \<and> in_flight (snd (finish tb)) = Some (latest, None)
           \<and> mUpdateInProgress (snd (finish tb))
           \<and> mLastUpdateState (snd (finish tb)) = Some props"
    using tb4 by (simp add: fin updateCalculatedValues_idle)
  show "props_ref latest = props_ref props \<Longrightarrow>
           (\<exists>cols. fst (finish tb) = Resolved cols)
           \<and> started (snd (finish tb)) = started tb
           \<and> in_flight (snd (finish tb)) = None
           \<and> \<not> mUpdateInProgress (snd (finish tb))
           \<and> mLastUpdateState (snd (finish tb)) = Some props"
    using tb4 by (simp add: fin)
qed




text \<open>
  C2. While a recomputation is in flight, a call of \<open>updateCalculatedValues\<close> only
  records its props in \<open>mNextUpdateState\<close> and resolves at once: it starts nothing.
  After any number of such calls, when the chain in flight comes to its end without
  rejecting or hanging, it starts exactly one follow-up recomputation, for the props of
  the last call, if these are another object than the props just processed, and none if
  they are the same object.
\<close>

theorem overlapping_updates_collapse:
  assumes busy: "mUpdateInProgress tb"
    and job: "in_flight tb = Some (props, forceUpdateId)"
  shows "updateCalculatedValues newer force tb
           = (ResolvedEmpty, tb\<lparr> mNextUpdateState := Some newer \<rparr>)
    \<and> (calls \<noteq> []
        \<and> tb' = fold (\<lambda>c tb. snd (updateCalculatedValues (fst c) (snd c) tb)) calls tb
        \<and> fst (finish tb') \<noteq> NeverSettles \<and> (\<forall>err. fst (finish tb') \<noteq> Failed err)
       \<longrightarrow> started tb' = started tb \<and> in_flight tb' = in_flight tb
          \<and> mNextUpdateState tb' = Some (fst (last calls))
          \<and> (props_ref (fst (last calls)) \<noteq> props_ref props \<longrightarrow>
                fst (finish tb') = FollowUp
                \<and> started (snd (finish tb')) = started tb @ [(fst (last calls), None)]
                \<and> in_flight (snd (finish tb')) = Some (fst (last calls), None)
                \<and> mUpdateInProgress (snd (finish tb')))
          \<and> (props_ref (fst (last calls)) = props_ref props \<longrightarrow>
                (\<exists>cols. fst (finish tb') = Resolved cols)
                \<and> started (snd (finish tb')) = started tb
                \<and> in_flight (snd (finish tb')) = None
                \<and> \<not> mUpdateInProgress (snd (finish tb'))))"
proof (intro conjI impI; (elim conjE)?)
  show "updateCalculatedValues newer force tb
           = (ResolvedEmpty, tb\<lparr> mNextUpdateState := Some newer \<rparr>)"
    using busy by (rule updateCalculatedValues_in_progress)
next
  assume calls: "calls \<noteq> []"
    and tb': "tb' = fold (\<lambda>c tb. snd (updateCalculatedValues (fst c) (snd c) tb)) calls tb"
    and settles: "fst (finish tb') \<noteq> NeverSettles" "\<forall>err. fst (finish tb') \<noteq> Failed err"
  have eq: "tb' = tb\<lparr> mNextUpdateState := Some (fst (last calls)) \<rparr>"
    unfolding tb' using busy calls by (rule overlapping_calls)
  have job': "in_flight tb' = Some (props, forceUpdateId)"
    and nxt: "mNextUpdateState tb' = Some (fst (last calls))"
    and st: "started tb' = started tb"
    by (simp_all add: eq job)
  note fs = finish_settles [OF job' nxt settles]
  show "started tb' = started tb" "in_flight tb' = in_flight tb"
    "mNextUpdateState tb' = Some (fst (last calls))"
    by (simp_all add: eq)
  {
    assume "props_ref (fst (last calls)) \<noteq> props_ref props"
    then show "fst (finish tb') = FollowUp"
      "started (snd (finish tb')) = started tb @ [(fst (last calls), None)]"
      "in_flight (snd (finish tb')) = Some (fst (last calls), None)"
      "mUpdateInProgress (snd (finish tb'))"
      using fs(1) st by simp_all
  }
  {
    assume "props_ref (fst (last calls)) = props_ref props"
    then show "\<exists>cols. fst (finish tb') = Resolved cols"
      "started (snd (finish tb')) = started tb"
      "in_flight (snd (finish tb')) = None"
      "\<not> mUpdateInProgress (snd (finish tb'))"
      using fs(2) st by simp_all
  }
qed


theorem overlapping_updates_collapse_witness:
  "mUpdateInProgress example_table
   \<and> in_flight example_table = Some (example_props 0 [(''a'', Obj 1 10)], None)
   \<and> fst (updateCalculatedValues (example_props 1 example_rows) None example_table)
       = ResolvedEmpty
   \<and> fst (finish (snd (updateCalculatedValues (example_props 1 example_rows) None
                          example_table))) = FollowUp
   \<and> map (\<lambda>c. props_ref (fst c))
        (started (snd (finish (snd (updateCalculatedValues (example_props 1 example_rows) None
                                     example_table))))) = [0, 1]"
proof -
  let ?p0 = "example_props 0 [(''a'', Obj 1 10)]"
  let ?p1 = "example_props 1 example_rows"
  let ?calls = "[(?p1, None :: string option)]"
  let ?tb' = "snd (updateCalculatedValues ?p1 None example_table)"
  have busy: "mUpdateInProgress example_table"
    and job: "in_flight example_table = Some (?p0, None)"
    and st: "started example_table = [(?p0, None)]"
    by (simp_all add: example_table_def)
  have fold: "?tb' = fold (\<lambda>c tb. snd (updateCalculatedValues (fst c) (snd c) tb)) ?calls
      example_table"
    by simp
  have fin: "fst (finish ?tb') = FollowUp"
    by code_simp
  have refs: "props_ref ?p1 \<noteq> props_ref ?p0" "props_ref ?p0 = 0" "props_ref ?p1 = 1"
    by (simp_all add: example_props_def)
  note T = overlapping_updates_collapse [OF busy job, of ?p1 None ?calls ?tb']
  have pre: "?calls \<noteq> [] \<and> ?tb' = fold (\<lambda>c tb. snd (updateCalculatedValues (fst c) (snd c) tb))
      ?calls example_table
      \<and> fst (finish ?tb') \<noteq> NeverSettles \<and> (\<forall>err. fst (finish ?tb') \<noteq> Failed err)"
  proof (intro conjI)
    show "?calls \<noteq> []" by simp
    show "?tb' = fold (\<lambda>c tb. snd (updateCalculatedValues (fst c) (snd c) tb))
      ?calls example_table" by (rule fold)
    show "fst (finish ?tb') \<noteq> NeverSettles" unfolding fin by simp
    show "\<forall>err. fst (finish ?tb') \<noteq> Failed err" unfolding fin by simp
  qed
  have last: "fst (last ?calls) = ?p1"
    by simp
  have follow: "fst (finish ?tb') = FollowUp
      \<and> started (snd (finish ?tb')) = started example_table @ [(?p1, None)]"
    using mp [OF conjunct2 [OF T] pre] refs(1) unfolding last by blast
  have call: "fst (updateCalculatedValues ?p1 None example_table) = ResolvedEmpty"
    using conjunct1 [OF T] by simp
  show ?thesis
    using busy job call follow by (simp add: st example_props_def)
qed









lemma apply_delta_calls [simp]: "calc_calls (apply_delta r delta pr) = calc_calls pr"
  by (simp add: apply_delta_def assign_in_place_def Let_def split: option.splits)



lemma delete_gone_calls [simp]: "calc_calls (delete_gone oldData newData pr) = calc_calls pr"
  by (simp add: delete_gone_def assign_in_place_def)


















end
